theory Spec2Isabelle
  imports Main "HOL-Library.Multiset"
begin

section \<open>Values: JavaScript request fields and SQLite cells\<close>

text \<open>
  A JavaScript string is a sequence of UTF-16 code units; \<open>length\<close> and \<open>trim\<close> of the
  source count and inspect code units, so a string is modelled as the list of its code units.
\<close>

type_synonym jsstring = "nat list"

definition ascii :: "string \<Rightarrow> jsstring" where
  "ascii s = map of_char s"

text \<open>
  A field of \<open>req.body\<close> as produced by the JSON and urlencoded body parsers. Numbers are
  restricted to integers (fractional JSON numbers are outside the model). An object or array
  is kept only through the string its \<open>toString()\<close> yields, which is all the handlers and
  the database driver ever look at; it has no callable \<open>trim\<close> property, since parsed
  bodies hold no functions.
\<close>

datatype jsval =
    JUndefined
  | JNull
  | JBool bool
  | JNum int
  | JStr jsstring
  | JObj jsstring

text \<open>Truthiness, as tested by \<open>!x\<close> and \<open>x || y\<close>.\<close>

fun truthy :: "jsval \<Rightarrow> bool" where
  "truthy JUndefined = False"
| "truthy JNull = False"
| "truthy (JBool b) = b"
| "truthy (JNum n) = (n \<noteq> 0)"
| "truthy (JStr s) = (s \<noteq> [])"
| "truthy (JObj s) = True"

definition js_or :: "jsval \<Rightarrow> jsval \<Rightarrow> jsval" where
  "js_or x y = (if truthy x then x else y)"

text \<open>
  \<open>String.prototype.trim\<close> removes WhiteSpace and LineTerminator code units from both
  ends: TAB, LF, VT, FF, CR, SP, NBSP, U+1680, U+2000..U+200A, U+2028, U+2029, U+202F,
  U+205F, U+3000, U+FEFF.
\<close>

definition is_js_space :: "nat \<Rightarrow> bool" where
  "is_js_space c \<longleftrightarrow>
     (9 \<le> c \<and> c \<le> 13) \<or> c = 32 \<or> c = 160 \<or> c = 5760 \<or> (8192 \<le> c \<and> c \<le> 8202) \<or>
     c = 8232 \<or> c = 8233 \<or> c = 8239 \<or> c = 8287 \<or> c = 12288 \<or> c = 65279"

definition trim :: "jsstring \<Rightarrow> jsstring" where
  "trim s = rev (dropWhile is_js_space (rev (dropWhile is_js_space s)))"

text \<open>
  A bound statement parameter as the sqlite3 driver hands it to SQLite: strings as TEXT,
  integers and booleans as INTEGER, \<open>null\<close> as NULL, an \<open>undefined\<close> parameter is left
  unbound (which SQLite reads as NULL), any other object as the TEXT of its \<open>toString()\<close>.
\<close>

datatype sqlval = SqlNull | SqlInt int | SqlText jsstring

fun bind :: "jsval \<Rightarrow> sqlval" where
  "bind JUndefined = SqlNull"
| "bind JNull = SqlNull"
| "bind (JBool b) = SqlInt (if b then 1 else 0)"
| "bind (JNum n) = SqlInt n"
| "bind (JStr s) = SqlText s"
| "bind (JObj s) = SqlText s"

text \<open>Decimal rendering of an integer, as SQLite converts INTEGER to TEXT.\<close>

fun digits :: "nat \<Rightarrow> jsstring" where
  "digits n = (if n < 10 then [48 + n] else digits (n div 10) @ [48 + n mod 10])"

declare digits.simps [simp del]

definition show_int :: "int \<Rightarrow> jsstring" where
  "show_int n = (if n < 0 then 45 # digits (nat (- n)) else digits (nat n))"

text \<open>
  TEXT column affinity: what a parameter becomes when it is stored in, or compared with, a
  column declared TEXT. \<open>None\<close> is NULL.
\<close>

fun as_text :: "sqlval \<Rightarrow> jsstring option" where
  "as_text SqlNull = None"
| "as_text (SqlInt n) = Some (show_int n)"
| "as_text (SqlText s) = Some s"

text \<open>
  INTEGER column affinity: what a parameter becomes when it is compared with, or stored in,
  a column declared INTEGER. TEXT that is a decimal integer literal (optional sign, ASCII
  white space around it) converts to that integer. TEXT with a fraction or an exponent is
  outside the model and, like any other TEXT, equals no integer.
\<close>

definition is_digit :: "nat \<Rightarrow> bool" where
  "is_digit c \<longleftrightarrow> 48 \<le> c \<and> c \<le> 57"

definition is_sql_space :: "nat \<Rightarrow> bool" where
  "is_sql_space c \<longleftrightarrow> (9 \<le> c \<and> c \<le> 13) \<or> c = 32"

definition digits_value :: "jsstring \<Rightarrow> nat" where
  "digits_value cs = foldl (\<lambda>a c. 10 * a + (c - 48)) 0 cs"

definition parse_digits :: "jsstring \<Rightarrow> nat option" where
  "parse_digits cs = (if cs \<noteq> [] \<and> list_all is_digit cs then Some (digits_value cs) else None)"

definition parse_int :: "jsstring \<Rightarrow> int option" where
  "parse_int s =
     (case rev (dropWhile is_sql_space (rev (dropWhile is_sql_space s))) of
        [] \<Rightarrow> None
      | c # cs \<Rightarrow>
          if c = 45 then map_option (\<lambda>n. - int n) (parse_digits cs)
          else if c = 43 then map_option int (parse_digits cs)
          else map_option int (parse_digits (c # cs)))"

fun as_int :: "sqlval \<Rightarrow> int option" where
  "as_int SqlNull = None"
| "as_int (SqlInt n) = Some n"
| "as_int (SqlText s) = parse_int s"

text \<open>SQL equality: a comparison with NULL is never true.\<close>

definition sql_eq :: "'a option \<Rightarrow> 'a option \<Rightarrow> bool" where
  "sql_eq x y = (case x of None \<Rightarrow> False | Some a \<Rightarrow> (case y of None \<Rightarrow> False | Some b \<Rightarrow> a = b))"

section \<open>The database\<close>

text \<open>
  The three tables of \<open>initDatabase\<close>. A DATETIME cell written by CURRENT_TIMESTAMP is
  modelled by the clock reading in seconds (its text form orders the same way). The BOOLEAN
  columns hold 0 or 1. A table is the list of its rows in insertion order.
\<close>

record board =
  b_id :: int
  b_code :: jsstring
  b_name :: jsstring
  b_description :: "jsstring option"
  b_created_at :: nat

record thread =
  t_id :: int
  t_board_id :: int
  t_subject :: "jsstring option"
  t_name :: "jsstring option"
  t_text :: jsstring
  t_password :: "jsstring option"
  t_image_url :: "jsstring option"
  t_ip_address :: "jsstring option"
  t_bump_time :: nat
  t_created_at :: nat
  t_reply_count :: int
  t_is_sticky :: bool
  t_is_locked :: bool

record post =
  p_id :: int
  p_thread_id :: int
  p_name :: "jsstring option"
  p_text :: jsstring
  p_password :: "jsstring option"
  p_image_url :: "jsstring option"
  p_ip_address :: "jsstring option"
  p_created_at :: nat

text \<open>
  \<open>seq_*\<close> is the \<open>sqlite_sequence\<close> entry that AUTOINCREMENT keeps for each table: the
  largest row id ever generated.
\<close>

record db =
  boards :: "board list"
  threads :: "thread list"
  posts :: "post list"
  seq_boards :: int
  seq_threads :: int
  seq_posts :: int

definition empty_db :: db where
  "empty_db = \<lparr>boards = [], threads = [], posts = [], seq_boards = 0, seq_threads = 0, seq_posts = 0\<rparr>"

text \<open>INTEGER PRIMARY KEY AUTOINCREMENT: one more than every id in the table and every id
  generated before.\<close>

definition next_id :: "int \<Rightarrow> int list \<Rightarrow> int" where
  "next_id s ids = foldr max ids s + 1"

text \<open>
  \<open>ORDER BY key DESC\<close>; rows with equal keys stay in table order. \<open>ORDER BY key\<close> is
  \<open>sort_key\<close>.
\<close>

definition order_by_desc :: "('a \<Rightarrow> nat) \<Rightarrow> 'a list \<Rightarrow> 'a list" where
  "order_by_desc key rows = sort_key (\<lambda>r. - int (key r)) rows"

text \<open>\<open>dbGet\<close>: the first row of the result, \<open>undefined\<close> when there is none.\<close>

definition board_by_code :: "sqlval \<Rightarrow> db \<Rightarrow> board option" where
  "board_by_code c d = find (\<lambda>b. sql_eq (Some (b_code b)) (as_text c)) (boards d)"

definition board_by_id :: "int \<Rightarrow> db \<Rightarrow> board option" where
  "board_by_id i d = find (\<lambda>b. b_id b = i) (boards d)"

definition thread_by_id :: "sqlval \<Rightarrow> db \<Rightarrow> thread option" where
  "thread_by_id i d = find (\<lambda>t. sql_eq (Some (t_id t)) (as_int i)) (threads d)"

section \<open>Startup: schema and seed boards\<close>

definition seed_boards :: "(jsstring \<times> jsstring \<times> jsstring) list" where
  "seed_boards =
    [(ascii ''b'', [1041, 1077, 1079, 32, 1090, 1077, 1084, 1099],
        [1040, 1073, 1089, 1086, 1083, 1102, 1090, 1085, 1086, 32, 1089, 1083, 1091, 1095, 1072,
         1081, 1085, 1099, 1081, 32, 1082, 1086, 1085, 1090, 1077, 1085, 1090]),
     (ascii ''ykt'', [1071, 1082, 1091, 1090, 1089, 1082],
        [1052, 1077, 1089, 1090, 1085, 1099, 1077, 32, 1085, 1086, 1074, 1086, 1089, 1090, 1080,
         32, 1080, 32, 1086, 1073, 1089, 1091, 1078, 1076, 1077, 1085, 1080, 1103]),
     (ascii ''pol'', [1055, 1086, 1083, 1080, 1090, 1080, 1082, 1072],
        [1055, 1086, 1083, 1080, 1090, 1080, 1095, 1077, 1089, 1082, 1080, 1077, 32, 1076, 1080,
         1089, 1082, 1091, 1089, 1089, 1080, 1080]),
     (ascii ''a'', [1040, 1085, 1080, 1084, 1077],
        [1040, 1085, 1080, 1084, 1077, 32, 1080, 32, 1084, 1072, 1085, 1075, 1072]),
     (ascii ''g'', [1058, 1077, 1093, 1085, 1086, 1083, 1086, 1075, 1080, 1080],
        [1050, 1086, 1084, 1087, 1100, 1102, 1090, 1077, 1088, 1099, 32, 1080, 32, 1087, 1088,
         1086, 1075, 1088, 1072, 1084, 1084, 1080, 1088, 1086, 1074, 1072, 1085, 1080, 1077]),
     (ascii ''mu'', [1052, 1091, 1079, 1099, 1082, 1072],
        [1052, 1091, 1079, 1099, 1082, 1072, 32, 1080, 32, 1072, 1091, 1076, 1080, 1086]),
     (ascii ''tv'', [1058, 1077, 1083, 1077, 1074, 1080, 1076, 1077, 1085, 1080, 1077],
        [1060, 1080, 1083, 1100, 1084, 1099, 32, 1080, 32, 1089, 1077, 1088, 1080, 1072, 1083,
         1099]),
     (ascii ''v'', [1042, 1080, 1076, 1077, 1086, 1080, 1075, 1088, 1099],
        [1048, 1075, 1088, 1099, 32, 1080, 32, 1082, 1086, 1085, 1089, 1086, 1083, 1080])]"

text \<open>
  \<open>INSERT OR IGNORE INTO boards (code, name, description)\<close>: the row is dropped when its
  code is already present (\<open>code TEXT UNIQUE\<close>). The id is generated before the uniqueness
  check, so \<open>sqlite_sequence\<close> advances either way.
\<close>

definition insert_board_or_ignore :: "nat \<Rightarrow> jsstring \<times> jsstring \<times> jsstring \<Rightarrow> db \<Rightarrow> db" where
  "insert_board_or_ignore now s d =
     (case s of (c, n, ds) \<Rightarrow>
        let i = next_id (seq_boards d) (map b_id (boards d)) in
        if c \<in> set (map b_code (boards d)) then d\<lparr>seq_boards := i\<rparr>
        else d\<lparr>boards := boards d @
                 [\<lparr>b_id = i, b_code = c, b_name = n, b_description = Some ds, b_created_at = now\<rparr>],
               seq_boards := i\<rparr>)"

text \<open>
  \<open>initDatabase\<close>. The CREATE TABLE/INDEX IF NOT EXISTS statements leave the rows alone.
  \<open>clock k\<close> is the clock reading when the \<open>k\<close>-th seed INSERT runs. The statements are
  taken in program order.
\<close>

fun seed_from :: "(nat \<Rightarrow> nat) \<Rightarrow> nat \<Rightarrow> (jsstring \<times> jsstring \<times> jsstring) list \<Rightarrow> db \<Rightarrow> db" where
  "seed_from clock k [] d = d"
| "seed_from clock k (s # ss) d = seed_from clock (Suc k) ss (insert_board_or_ignore (clock k) s d)"

definition initDatabase :: "(nat \<Rightarrow> nat) \<Rightarrow> db \<Rightarrow> db" where
  "initDatabase clock d = seed_from clock 0 seed_boards d"

section \<open>Responses\<close>

text \<open>One constructor for each error text of the source.\<close>

datatype message =
    MsgServerError           \<comment> \<open>500, read handlers\<close>
  | MsgBoardNotFound         \<comment> \<open>404, GET /api/board/:code\<close>
  | MsgThreadNotFound        \<comment> \<open>404, GET /api/thread/:id and POST /api/post/create\<close>
  | MsgTextMin5              \<comment> \<open>400, thread text shorter than 5\<close>
  | MsgInvalidBoard          \<comment> \<open>400, POST /api/thread/create\<close>
  | MsgThreadCreateFailed    \<comment> \<open>500, POST /api/thread/create\<close>
  | MsgEnterPostText         \<comment> \<open>400, empty post text\<close>
  | MsgThreadLocked          \<comment> \<open>400, thread closed for replies\<close>
  | MsgPostCreateFailed      \<comment> \<open>500, POST /api/post/create\<close>
  | MsgEnterPassword         \<comment> \<open>400, no password given\<close>
  | MsgWrongPasswordOrNoPost \<comment> \<open>400, wrong password or post not found\<close>
  | MsgPostDeleteFailed      \<comment> \<open>500, POST /api/post/delete\<close>

datatype board_info = KnownBoard board | UnknownBoard

datatype payload =
    Boards "board list"
  | BoardPage board "thread list"
  | ThreadPage thread "post list" board_info
  | ThreadCreated int jsval
  | PostCreated int
  | PostDeleted

datatype response = Ok payload | Err nat message


section \<open>Read handlers\<close>


text \<open>\<open>GET /api/board/:code\<close>; a route parameter is always a string.\<close>

definition board_threads :: "int \<Rightarrow> db \<Rightarrow> thread list" where
  "board_threads bid d =
     take 20 (order_by_desc t_bump_time
                (filter (\<lambda>t. t_board_id t = bid \<and> \<not> t_is_sticky t) (threads d)))"

definition board_stickyThreads :: "int \<Rightarrow> db \<Rightarrow> thread list" where
  "board_stickyThreads bid d =
     order_by_desc t_created_at (filter (\<lambda>t. t_board_id t = bid \<and> t_is_sticky t) (threads d))"

definition getBoard :: "jsstring \<Rightarrow> db \<Rightarrow> response" where
  "getBoard code d =
     (case board_by_code (SqlText code) d of
        None \<Rightarrow> Err 404 MsgBoardNotFound
      | Some b \<Rightarrow> Ok (BoardPage b (board_stickyThreads (b_id b) d @ board_threads (b_id b) d)))"

text \<open>\<open>GET /api/thread/:id\<close>\<close>

definition thread_posts :: "int \<Rightarrow> db \<Rightarrow> post list" where
  "thread_posts tid d = take 100 (sort_key p_created_at (filter (\<lambda>p. p_thread_id p = tid) (posts d)))"

definition getThread :: "jsstring \<Rightarrow> db \<Rightarrow> response" where
  "getThread ident d =
     (case thread_by_id (SqlText ident) d of
        None \<Rightarrow> Err 404 MsgThreadNotFound
      | Some t \<Rightarrow>
          Ok (ThreadPage t (thread_posts (t_id t) d)
                (case board_by_id (t_board_id t) d of Some b \<Rightarrow> KnownBoard b | None \<Rightarrow> UnknownBoard)))"

section \<open>Write handlers\<close>

text \<open>
  The handlers behind the rate limiter, each taken as one step on the database (requests
  are not interleaved) and with a store that does not fail. \<open>now\<close> is the clock reading
  CURRENT_TIMESTAMP gives the handler's statements. A \<open>TypeError\<close> raised in the handler
  (calling \<open>trim\<close> on a value that has none) lands in its \<open>catch\<close>, status 500.
\<close>

record thread_req =
  tr_board :: jsval
  tr_subject :: jsval
  tr_name :: jsval
  tr_text :: jsval
  tr_password :: jsval
  tr_image_url :: jsval
  tr_ip :: jsval

record post_req =
  pr_thread_id :: jsval
  pr_name :: jsval
  pr_text :: jsval
  pr_password :: jsval
  pr_image_url :: jsval
  pr_ip :: jsval

record delete_req =
  dr_post_id :: jsval
  dr_password :: jsval

definition anonymous :: jsstring where
  "anonymous = [1040, 1085, 1086, 1085, 1080, 1084]"

text \<open>\<open>POST /api/thread/create\<close>\<close>

definition createThread :: "nat \<Rightarrow> thread_req \<Rightarrow> db \<Rightarrow> response \<times> db" where
  "createThread now r d =
     (if \<not> truthy (tr_text r) then (Err 400 MsgTextMin5, d)
      else case tr_text r of
        JStr s \<Rightarrow>
          if length (trim s) < 5 then (Err 400 MsgTextMin5, d)
          else (case board_by_code (bind (tr_board r)) d of
             None \<Rightarrow> (Err 400 MsgInvalidBoard, d)
           | Some b \<Rightarrow>
               let i = next_id (seq_threads d) (map t_id (threads d)) in
               (Ok (ThreadCreated i (tr_board r)),
                d\<lparr>threads := threads d @
                     [\<lparr>t_id = i, t_board_id = b_id b,
                       t_subject = as_text (bind (js_or (tr_subject r) JNull)),
                       t_name = as_text (bind (js_or (tr_name r) (JStr anonymous))),
                       t_text = trim s,
                       t_password = as_text (bind (js_or (tr_password r) JNull)),
                       t_image_url = as_text (bind (js_or (tr_image_url r) JNull)),
                       t_ip_address = as_text (bind (js_or (tr_ip r) (JStr (ascii ''unknown'')))),
                       t_bump_time = now, t_created_at = now, t_reply_count = 0,
                       t_is_sticky = False, t_is_locked = False\<rparr>],
                   seq_threads := i\<rparr>))
      | _ \<Rightarrow> (Err 500 MsgThreadCreateFailed, d))"

text \<open>\<open>POST /api/post/create\<close>\<close>

definition bump :: "nat \<Rightarrow> sqlval \<Rightarrow> thread \<Rightarrow> thread" where
  "bump now i t =
     (if sql_eq (Some (t_id t)) (as_int i)
      then t\<lparr>t_bump_time := now, t_reply_count := t_reply_count t + 1\<rparr> else t)"

definition createPost :: "nat \<Rightarrow> post_req \<Rightarrow> db \<Rightarrow> response \<times> db" where
  "createPost now r d =
     (if \<not> truthy (pr_text r) then (Err 400 MsgEnterPostText, d)
      else case pr_text r of
        JStr s \<Rightarrow>
          if length (trim s) < 1 then (Err 400 MsgEnterPostText, d)
          else (case thread_by_id (bind (pr_thread_id r)) d of
             None \<Rightarrow> (Err 404 MsgThreadNotFound, d)
           | Some t \<Rightarrow>
               if t_is_locked t then (Err 400 MsgThreadLocked, d)
               else
                 let i = next_id (seq_posts d) (map p_id (posts d)) in
                 (Ok (PostCreated i),
                  d\<lparr>posts := posts d @
                       [\<lparr>p_id = i, p_thread_id = t_id t,
                         p_name = as_text (bind (js_or (pr_name r) (JStr anonymous))),
                         p_text = trim s,
                         p_password = as_text (bind (js_or (pr_password r) JNull)),
                         p_image_url = as_text (bind (js_or (pr_image_url r) JNull)),
                         p_ip_address = as_text (bind (js_or (pr_ip r) (JStr (ascii ''unknown'')))),
                         p_created_at = now\<rparr>],
                     seq_posts := i,
                     threads := map (bump now (bind (pr_thread_id r))) (threads d)\<rparr>))
      | _ \<Rightarrow> (Err 500 MsgPostCreateFailed, d))"

text \<open>\<open>POST /api/post/delete\<close>\<close>

definition post_by_id_password :: "sqlval \<Rightarrow> sqlval \<Rightarrow> db \<Rightarrow> post option" where
  "post_by_id_password i pw d =
     find (\<lambda>p. sql_eq (Some (p_id p)) (as_int i) \<and> sql_eq (p_password p) (as_text pw)) (posts d)"

definition deletePost :: "delete_req \<Rightarrow> db \<Rightarrow> response \<times> db" where
  "deletePost r d =
     (if \<not> truthy (dr_password r) then (Err 400 MsgEnterPassword, d)
      else case post_by_id_password (bind (dr_post_id r)) (bind (dr_password r)) d of
        Some p \<Rightarrow>
          (Ok PostDeleted,
           d\<lparr>posts := filter (\<lambda>p. \<not> sql_eq (Some (p_id p)) (as_int (bind (dr_post_id r)))) (posts d)\<rparr>)
      | None \<Rightarrow> (Err 400 MsgWrongPasswordOrNoPost, d))"

section \<open>Runs\<close>

text \<open>Every operation of the source that writes to the database, with its clock reading.\<close>

datatype request =
    Startup "nat \<Rightarrow> nat"
  | CreateThread thread_req
  | CreatePost post_req
  | DeletePost delete_req

fun step :: "nat \<times> request \<Rightarrow> db \<Rightarrow> db" where
  "step (now, Startup clock) d = initDatabase clock d"
| "step (now, CreateThread r) d = snd (createThread now r d)"
| "step (now, CreatePost r) d = snd (createPost now r d)"
| "step (now, DeletePost r) d = snd (deletePost r d)"

definition run :: "(nat \<times> request) list \<Rightarrow> db \<Rightarrow> db" where
  "run evs d = fold step evs d"





section \<open>Example scenario\<close>

text \<open>
  A fresh database after one startup; a thread with text "hello world" on board "b"; a
  reply to it; and the same thread after moderation tooling has locked it (no handler sets
  \<open>is_locked\<close>).
\<close>

definition seeded_db :: db where
  "seeded_db = initDatabase (\<lambda>k. 0) empty_db"

definition hello_req :: thread_req where
  "hello_req = \<lparr>tr_board = JStr (ascii ''b''), tr_subject = JUndefined, tr_name = JUndefined,
     tr_text = JStr (ascii ''hello world''), tr_password = JUndefined, tr_image_url = JUndefined,
     tr_ip = JUndefined\<rparr>"

definition first_thread_db :: db where
  "first_thread_db = snd (createThread 1 hello_req seeded_db)"

definition reply_req :: post_req where
  "reply_req = \<lparr>pr_thread_id = JNum 1, pr_name = JUndefined, pr_text = JStr (ascii ''first reply''),
     pr_password = JUndefined, pr_image_url = JUndefined, pr_ip = JUndefined\<rparr>"


definition secret_reply_req :: post_req where
  "secret_reply_req =
     reply_req\<lparr>pr_text := JStr (ascii ''second reply''), pr_password := JStr (ascii ''secret'')\<rparr>"

definition replied_db :: db where
  "replied_db = snd (createPost 3 secret_reply_req (snd (createPost 2 reply_req first_thread_db)))"

text \<open>
  Three threads on board "b", the second made sticky by moderation tooling, and a reply
  to the first; requests to delete the second post of \<open>replied_db\<close>; a run on
  \<open>first_thread_db\<close>.
\<close>

definition listing_db :: db where
  "listing_db =
     (let d2 = snd (createThread 2 hello_req first_thread_db);
          d3 = snd (createThread 3 hello_req d2);
          d4 = d3\<lparr>threads := map (\<lambda>t. if t_id t = 2 then t\<lparr>t_is_sticky := True\<rparr> else t) (threads d3)\<rparr>
      in snd (createPost 4 reply_req d4))"

definition right_delete_req :: delete_req where
  "right_delete_req = \<lparr>dr_post_id = JNum 2, dr_password = JStr (ascii ''secret'')\<rparr>"



definition example_run :: "(nat \<times> request) list" where
  "example_run =
     [(2, CreatePost reply_req), (3, CreatePost secret_reply_req), (4, DeletePost right_delete_req),
      (5, CreatePost (reply_req\<lparr>pr_text := JStr []\<rparr>)), (6, Startup (\<lambda>k. 6))]"

text \<open>
  A database with 22 threads on the first board, the oldest of them sticky, and 101 posts in
  the first thread.
\<close>

definition crowded_db :: db where
  "crowded_db =
     first_thread_db\<lparr>
       threads := map (\<lambda>k. \<lparr>t_id = int k, t_board_id = 1, t_subject = None, t_name = Some anonymous,
                            t_text = ascii ''hello world'', t_password = None, t_image_url = None,
                            t_ip_address = Some (ascii ''unknown''), t_bump_time = 10 + k,
                            t_created_at = 10 + k, t_reply_count = 0, t_is_sticky = (k = 1),
                            t_is_locked = False\<rparr>) [1..<23],
       posts := map (\<lambda>k. \<lparr>p_id = int k, p_thread_id = 1, p_name = Some anonymous,
                          p_text = ascii ''first reply'', p_password = None, p_image_url = None,
                          p_ip_address = Some (ascii ''unknown''), p_created_at = 40 + k\<rparr>) [1..<102],
       seq_threads := 22, seq_posts := 101\<rparr>"

section \<open>Basic facts\<close>

lemma trim_Nil [simp]: "trim [] = []"
  by (simp add: trim_def)

lemma find_Some_in_set: "find P xs = Some x \<Longrightarrow> x \<in> set xs \<and> P x"
  by (induction xs) (auto split: if_splits)

text \<open>The definitions a concrete run unfolds.\<close>

lemmas eval_defs =
  createThread_def createPost_def deletePost_def
  initDatabase_def seed_boards_def insert_board_or_ignore_def empty_db_def next_id_def
  board_by_code_def thread_by_id_def post_by_id_password_def bump_def
  ascii_def trim_def is_js_space_def js_or_def sql_eq_def anonymous_def Let_def
  parse_int_def parse_digits_def is_digit_def is_sql_space_def digits_value_def
  seeded_db_def hello_req_def first_thread_db_def reply_req_def

lemma sql_eq_None [simp]: "\<not> sql_eq None y" "\<not> sql_eq x None"
  by (simp_all add: sql_eq_def split: option.splits)

lemma sql_eq_Some [simp]: "sql_eq (Some a) y \<longleftrightarrow> y = Some a"
  by (auto simp: sql_eq_def split: option.splits)

lemma truthy_bind_text: "truthy v \<Longrightarrow> as_text (bind v) \<noteq> None"
  by (cases v) auto

lemma falsy_or_null: "\<not> truthy v \<Longrightarrow> as_text (bind (js_or v JNull)) = None"
  by (simp add: js_or_def)

lemma next_id_fresh: "next_id s ids \<notin> set ids"
proof -
  have "x \<le> foldr max ids s" if "x \<in> set ids" for x
    using that by (induction ids) auto
  then have "x < next_id s ids" if "x \<in> set ids" for x
    using that by (fastforce simp: next_id_def)
  then show ?thesis by blast
qed

lemma deletePost_denied:
  assumes "truthy (dr_password r)"
    and "\<forall>q \<in> set (posts d). as_int (bind (dr_post_id r)) = Some (p_id q) \<longrightarrow>
           p_password q \<noteq> as_text (bind (dr_password r))"
  shows "deletePost r d = (Err 400 MsgWrongPasswordOrNoPost, d)"
proof -
  have "post_by_id_password (bind (dr_post_id r)) (bind (dr_password r)) d = None"
    unfolding post_by_id_password_def find_None_iff
    using assms(2) by (auto simp: sql_eq_def split: option.splits)
  with assms(1) show ?thesis
    by (simp add: deletePost_def)
qed

lemma insert_board_others [simp]:
  "threads (insert_board_or_ignore now s d) = threads d"
  "posts (insert_board_or_ignore now s d) = posts d"
  "seq_threads (insert_board_or_ignore now s d) = seq_threads d"
  "seq_posts (insert_board_or_ignore now s d) = seq_posts d"
  by (simp_all add: insert_board_or_ignore_def Let_def split: prod.splits)

lemma seed_from_others [simp]:
  "threads (seed_from clock k ss d) = threads d"
  "posts (seed_from clock k ss d) = posts d"
  "seq_threads (seed_from clock k ss d) = seq_threads d"
  "seq_posts (seed_from clock k ss d) = seq_posts d"
  by (induction ss arbitrary: k d) simp_all

lemma initDatabase_others [simp]:
  "threads (initDatabase clock d) = threads d"
  "posts (initDatabase clock d) = posts d"
  "seq_threads (initDatabase clock d) = seq_threads d"
  "seq_posts (initDatabase clock d) = seq_posts d"
  by (simp_all add: initDatabase_def)

lemma createThread_posts [simp]: "posts (snd (createThread now r d)) = posts d"
  by (simp add: createThread_def Let_def split: jsval.splits option.splits)

lemma deletePost_threads [simp]: "threads (snd (deletePost r d)) = threads d"
  by (simp add: deletePost_def split: option.splits)


lemma run_append: "run (evs1 @ evs2) d = run evs2 (run evs1 d)"
  by (simp add: run_def)

section \<open>Thread creation\<close>

text \<open>
  C8. A thread row written by a successful thread creation has \<open>bump_time\<close> equal to
  \<open>created_at\<close>: the INSERT names neither column, so both take the statement's
  CURRENT_TIMESTAMP. The row is appended with reply count 0 and its id is the one returned.
\<close>

theorem createThread_bump_eq_created:
  assumes "createThread now r d = (Ok p, d')"
  shows "\<exists>t. threads d' = threads d @ [t] \<and> p = ThreadCreated (t_id t) (tr_board r) \<and>
             t_bump_time t = t_created_at t \<and> t_created_at t = now \<and> t_reply_count t = 0"
  using assms
  by (auto simp: createThread_def Let_def split: if_splits jsval.splits option.splits)

theorem createThread_bump_eq_created_witness:
  "\<exists>p d'. createThread 1 hello_req seeded_db = (Ok p, d') \<and>
     (\<exists>t. threads d' = threads seeded_db @ [t] \<and> p = ThreadCreated (t_id t) (tr_board hello_req) \<and>
             t_bump_time t = t_created_at t \<and> t_created_at t = 1 \<and> t_reply_count t = 0)"
proof -
  have "fst (createThread 1 hello_req seeded_db) = Ok (ThreadCreated 1 (JStr (ascii ''b'')))"
    by (simp add: eval_defs)
  then obtain d' where
    h: "createThread 1 hello_req seeded_db = (Ok (ThreadCreated 1 (JStr (ascii ''b''))), d')"
    by (cases "createThread 1 hello_req seeded_db") simp
  from createThread_bump_eq_created [OF h] h show ?thesis by blast
qed




text \<open>
  C6, as stated, fails: for a board code that no board has, thread creation answers with
  status 400, the status of its validation failures, where the board page answers the same
  code with 404.
\<close>

theorem createThread_not_found_counterexample:
  "fst (createThread 1 (hello_req\<lparr>tr_board := JStr (ascii ''zzz'')\<rparr>) seeded_db) =
     Err 400 MsgInvalidBoard \<and>
   getBoard (ascii ''zzz'') seeded_db = Err 404 MsgBoardNotFound"
  by (simp add: eval_defs
          getBoard_def)

text \<open>
  C6, amended. A thread creation that names a board code no board has inserts nothing (the
  database is unchanged) and fails with a status other than 404; when its text passes
  validation the failure is the status 400 invalid-board result.
\<close>

theorem createThread_unknown_board:
  assumes "board_by_code (bind (tr_board r)) d = None"
  shows "snd (createThread now r d) = d \<and>
         (\<exists>s m. fst (createThread now r d) = Err s m \<and> s \<noteq> 404) \<and>
         (\<forall>s. tr_text r = JStr s \<and> 5 \<le> length (trim s) \<longrightarrow>
            fst (createThread now r d) = Err 400 MsgInvalidBoard)"
  using assms by (auto simp: createThread_def Let_def split: jsval.splits)

theorem createThread_unknown_board_witness:
  "snd (createThread 1 (hello_req\<lparr>tr_board := JStr (ascii ''zzz'')\<rparr>) seeded_db) = seeded_db \<and>
   fst (createThread 1 (hello_req\<lparr>tr_board := JStr (ascii ''zzz'')\<rparr>) seeded_db) =
     Err 400 MsgInvalidBoard"
proof -
  let ?r = "hello_req\<lparr>tr_board := JStr (ascii ''zzz'')\<rparr>"
  have none: "board_by_code (bind (tr_board ?r)) seeded_db = None"
    by (simp add: eval_defs)
  have ok: "tr_text ?r = JStr (ascii ''hello world'') \<and> 5 \<le> length (trim (ascii ''hello world''))"
    by (simp add: eval_defs)
  from createThread_unknown_board [OF none, of 1] ok show ?thesis by blast
qed

section \<open>Locked threads\<close>




section \<open>Seeding\<close>







lemma createThread_boards [simp]: "boards (snd (createThread now r d)) = boards d"
  by (simp add: createThread_def Let_def split: jsval.splits option.splits)

lemma createPost_boards [simp]: "boards (snd (createPost now r d)) = boards d"
  by (simp add: createPost_def Let_def split: jsval.splits option.splits)

lemma deletePost_boards [simp]: "boards (snd (deletePost r d)) = boards d"
  by (simp add: deletePost_def split: option.splits)







section \<open>Listings\<close>

lemma order_by_desc_sorted: "sorted_wrt (\<lambda>x y. key y \<le> key x) (order_by_desc key rows)"
proof -
  have "sorted (map (\<lambda>r. - int (key r)) (sort_key (\<lambda>r. - int (key r)) rows))"
    by (rule sorted_sort_key)
  then show ?thesis
    by (simp add: order_by_desc_def sorted_map)
qed

lemma mset_order_by_desc [simp]: "mset (order_by_desc key rows) = mset rows"
  by (simp add: order_by_desc_def)

lemma length_order_by_desc [simp]: "length (order_by_desc key rows) = length rows"
  by (simp add: order_by_desc_def)

lemma sorted_wrt_take_drop:
  assumes "sorted_wrt P xs" and "x \<in> set (take n xs)" and "y \<in> set (drop n xs)"
  shows "P x y"
proof -
  from assms(1) have "sorted_wrt P (take n xs @ drop n xs)"
    by simp
  with assms(2,3) show ?thesis
    unfolding sorted_wrt_append by blast
qed

lemma mset_minus_take: "mset xs - mset (take n xs) = mset (drop n xs)"
proof -
  have "mset xs = mset (take n xs) + mset (drop n xs)"
    by (metis append_take_drop_id mset_append)
  then show ?thesis by simp
qed

lemma mset_take_subset: "mset (take n xs) \<subseteq># mset xs"
proof -
  have "mset xs = mset (take n xs) + mset (drop n xs)"
    by (metis append_take_drop_id mset_append)
  then show ?thesis by (metis mset_subset_eq_add_left)
qed

text \<open>The first \<open>n\<close> rows of a sorted result: a sub-multiset of the rows, still sorted,
  and every row left out comes no earlier in the order than every row kept.\<close>

lemma take_sorted_top:
  assumes "sorted_wrt P ys" and "mset ys = mset xs"
  shows "length (take n ys) = min n (length xs) \<and> mset (take n ys) \<subseteq># mset xs \<and>
         sorted_wrt P (take n ys) \<and>
         (\<forall>x \<in># mset xs - mset (take n ys). \<forall>y \<in> set (take n ys). P y x)"
proof -
  have len: "length ys = length xs"
    using assms(2) by (rule mset_eq_length)
  have sub: "mset (take n ys) \<subseteq># mset xs"
    using mset_take_subset [of n ys] assms(2) by simp
  have srt: "sorted_wrt P (take n ys)"
    using assms(1) by (rule sorted_wrt_take)
  have rest: "mset xs - mset (take n ys) = mset (drop n ys)"
    using mset_minus_take [of ys n] assms(2) by simp
  have top: "\<forall>x \<in># mset xs - mset (take n ys). \<forall>y \<in> set (take n ys). P y x"
    unfolding rest using sorted_wrt_take_drop [OF assms(1)] by auto
  from len sub srt top show ?thesis by (simp add: min.commute)
qed

text \<open>
  C1. The listing of a board is the board's sticky threads, all of them, newest creation
  first, followed by its non-sticky threads, latest bump first and cut after 20: the second
  part holds \<open>min 20\<close> of the non-sticky threads, and every non-sticky thread left out was
  bumped no later than every one listed. The sticky part comes first whatever the bump times.
\<close>

theorem getBoard_listing:
  assumes "board_by_code (SqlText code) d = Some b"
  shows "\<exists>S N. getBoard code d = Ok (BoardPage b (S @ N)) \<and>
           mset S = mset (filter (\<lambda>t. t_board_id t = b_id b \<and> t_is_sticky t) (threads d)) \<and>
           sorted_wrt (\<lambda>x y. t_created_at y \<le> t_created_at x) S \<and>
           length N = min 20 (length (filter (\<lambda>t. t_board_id t = b_id b \<and> \<not> t_is_sticky t) (threads d))) \<and>
           mset N \<subseteq># mset (filter (\<lambda>t. t_board_id t = b_id b \<and> \<not> t_is_sticky t) (threads d)) \<and>
           sorted_wrt (\<lambda>x y. t_bump_time y \<le> t_bump_time x) N \<and>
           (\<forall>x \<in># mset (filter (\<lambda>t. t_board_id t = b_id b \<and> \<not> t_is_sticky t) (threads d)) - mset N.
              \<forall>y \<in> set N. t_bump_time x \<le> t_bump_time y)"
proof -
  let ?S = "board_stickyThreads (b_id b) d"
  let ?N = "board_threads (b_id b) d"
  let ?ns = "filter (\<lambda>t. t_board_id t = b_id b \<and> \<not> t_is_sticky t) (threads d)"
  have page: "getBoard code d = Ok (BoardPage b (?S @ ?N))"
    using assms by (simp add: getBoard_def)
  have S1: "mset ?S = mset (filter (\<lambda>t. t_board_id t = b_id b \<and> t_is_sticky t) (threads d))"
    by (simp add: board_stickyThreads_def)
  have S2: "sorted_wrt (\<lambda>x y. t_created_at y \<le> t_created_at x) ?S"
    unfolding board_stickyThreads_def by (rule order_by_desc_sorted)
  have N: "length ?N = min 20 (length ?ns) \<and> mset ?N \<subseteq># mset ?ns \<and>
           sorted_wrt (\<lambda>x y. t_bump_time y \<le> t_bump_time x) ?N \<and>
           (\<forall>x \<in># mset ?ns - mset ?N. \<forall>y \<in> set ?N. t_bump_time x \<le> t_bump_time y)"
    unfolding board_threads_def
    by (rule take_sorted_top [OF order_by_desc_sorted mset_order_by_desc])
  from page S1 S2 N show ?thesis by blast
qed

theorem getBoard_listing_witness:
  "(\<exists>b S N. getBoard (ascii ''b'') listing_db = Ok (BoardPage b (S @ N)) \<and>
      map t_id (S @ N) = [2, 1, 3] \<and>
      mset S = mset (filter (\<lambda>t. t_board_id t = b_id b \<and> t_is_sticky t) (threads listing_db)) \<and>
      sorted_wrt (\<lambda>x y. t_bump_time y \<le> t_bump_time x) N) \<and>
   (\<exists>b S N. getBoard (ascii ''b'') crowded_db = Ok (BoardPage b (S @ N)) \<and>
      length S = 1 \<and> length N = 20 \<and>
      map t_id (S @ N) =
        [1, 22, 21, 20, 19, 18, 17, 16, 15, 14, 13, 12, 11, 10, 9, 8, 7, 6, 5, 4, 3])"
proof -
  have "board_by_code (SqlText (ascii ''b'')) listing_db \<noteq> None"
    by (simp add: eval_defs listing_db_def)
  then obtain b where b: "board_by_code (SqlText (ascii ''b'')) listing_db = Some b"
    by blast
  have ids: "(case getBoard (ascii ''b'') listing_db of
                Ok (BoardPage b ts) \<Rightarrow> map t_id ts | _ \<Rightarrow> []) = [2, 1, 3]"
    by (simp add: eval_defs
          listing_db_def getBoard_def board_threads_def board_stickyThreads_def order_by_desc_def)
  from getBoard_listing [OF b] obtain S N where
    page: "getBoard (ascii ''b'') listing_db = Ok (BoardPage b (S @ N))" and
    rest: "mset S = mset (filter (\<lambda>t. t_board_id t = b_id b \<and> t_is_sticky t) (threads listing_db))"
      "sorted_wrt (\<lambda>x y. t_bump_time y \<le> t_bump_time x) N"
    by blast
  from ids page have "map t_id (S @ N) = [2, 1, 3]"
    by simp
  with page rest have
    "getBoard (ascii ''b'') listing_db = Ok (BoardPage b (S @ N)) \<and>
     map t_id (S @ N) = [2, 1, 3] \<and>
     mset S = mset (filter (\<lambda>t. t_board_id t = b_id b \<and> t_is_sticky t) (threads listing_db)) \<and>
     sorted_wrt (\<lambda>x y. t_bump_time y \<le> t_bump_time x) N"
    by simp
  then have small: "\<exists>b S N. getBoard (ascii ''b'') listing_db = Ok (BoardPage b (S @ N)) \<and>
      map t_id (S @ N) = [2, 1, 3] \<and>
      mset S = mset (filter (\<lambda>t. t_board_id t = b_id b \<and> t_is_sticky t) (threads listing_db)) \<and>
      sorted_wrt (\<lambda>x y. t_bump_time y \<le> t_bump_time x) N"
    by (intro exI)
  have "map_option b_id (board_by_code (SqlText (ascii ''b'')) crowded_db) = Some 1"
    by (simp add: eval_defs crowded_db_def)
  then obtain c where c: "board_by_code (SqlText (ascii ''b'')) crowded_db = Some c"
    and cid: "b_id c = 1"
    by auto
  have count: "length (filter (\<lambda>t. t_board_id t = 1 \<and> t_is_sticky t) (threads crowded_db)) = 1 \<and>
               length (filter (\<lambda>t. t_board_id t = 1 \<and> \<not> t_is_sticky t) (threads crowded_db)) = 21"
    by (simp add: crowded_db_def upt_rec)
  have cids: "(case getBoard (ascii ''b'') crowded_db of
                 Ok (BoardPage b ts) \<Rightarrow> map t_id ts | _ \<Rightarrow> []) =
              [1, 22, 21, 20, 19, 18, 17, 16, 15, 14, 13, 12, 11, 10, 9, 8, 7, 6, 5, 4, 3]"
    by (simp add: eval_defs
          crowded_db_def getBoard_def board_threads_def board_stickyThreads_def order_by_desc_def
          upt_rec)
  from getBoard_listing [OF c] cid obtain S' N' where
    cpage: "getBoard (ascii ''b'') crowded_db = Ok (BoardPage c (S' @ N'))" and
    cS: "mset S' = mset (filter (\<lambda>t. t_board_id t = 1 \<and> t_is_sticky t) (threads crowded_db))" and
    cN: "length N' = min 20 (length (filter (\<lambda>t. t_board_id t = 1 \<and> \<not> t_is_sticky t)
                                       (threads crowded_db)))"
    by auto
  from cS have "length S' = length (filter (\<lambda>t. t_board_id t = 1 \<and> t_is_sticky t) (threads crowded_db))"
    by (rule mset_eq_length)
  with count have lS: "length S' = 1"
    by simp
  from cN count have lN: "length N' = 20"
    by simp
  from cids cpage have "map t_id (S' @ N') =
      [1, 22, 21, 20, 19, 18, 17, 16, 15, 14, 13, 12, 11, 10, 9, 8, 7, 6, 5, 4, 3]"
    by simp
  with cpage lS lN have
    "getBoard (ascii ''b'') crowded_db = Ok (BoardPage c (S' @ N')) \<and>
      length S' = 1 \<and> length N' = 20 \<and>
      map t_id (S' @ N') =
        [1, 22, 21, 20, 19, 18, 17, 16, 15, 14, 13, 12, 11, 10, 9, 8, 7, 6, 5, 4, 3]"
    by simp
  then have large: "\<exists>b S N. getBoard (ascii ''b'') crowded_db = Ok (BoardPage b (S @ N)) \<and>
      length S = 1 \<and> length N = 20 \<and>
      map t_id (S @ N) =
        [1, 22, 21, 20, 19, 18, 17, 16, 15, 14, 13, 12, 11, 10, 9, 8, 7, 6, 5, 4, 3]"
    by (intro exI)
  from small large show ?thesis ..
qed

text \<open>
  C9. The view of an existing thread holds the thread's posts, oldest first and cut after
  100: \<open>min 100\<close> of the thread's posts are returned, and every post left out was created
  no earlier than every post returned.
\<close>

theorem getThread_posts:
  assumes "thread_by_id (SqlText ident) d = Some t"
  shows "\<exists>ps bi. getThread ident d = Ok (ThreadPage t ps bi) \<and>
           length ps = min 100 (length (filter (\<lambda>p. p_thread_id p = t_id t) (posts d))) \<and>
           mset ps \<subseteq># mset (filter (\<lambda>p. p_thread_id p = t_id t) (posts d)) \<and>
           sorted_wrt (\<lambda>x y. p_created_at x \<le> p_created_at y) ps \<and>
           (\<forall>x \<in># mset (filter (\<lambda>p. p_thread_id p = t_id t) (posts d)) - mset ps.
              \<forall>y \<in> set ps. p_created_at y \<le> p_created_at x)"
proof -
  let ?own = "filter (\<lambda>p. p_thread_id p = t_id t) (posts d)"
  let ?ps = "thread_posts (t_id t) d"
  have page: "\<exists>bi. getThread ident d = Ok (ThreadPage t ?ps bi)"
    using assms by (simp add: getThread_def)
  have srt: "sorted_wrt (\<lambda>x y. p_created_at x \<le> p_created_at y) (sort_key p_created_at ?own)"
    using sorted_sort_key [of p_created_at ?own] by (simp add: sorted_map)
  have ms: "mset (sort_key p_created_at ?own) = mset ?own"
    by simp
  have P: "length ?ps = min 100 (length ?own) \<and> mset ?ps \<subseteq># mset ?own \<and>
           sorted_wrt (\<lambda>x y. p_created_at x \<le> p_created_at y) ?ps \<and>
           (\<forall>x \<in># mset ?own - mset ?ps. \<forall>y \<in> set ?ps. p_created_at y \<le> p_created_at x)"
    unfolding thread_posts_def by (rule take_sorted_top [OF srt ms])
  from page P show ?thesis by blast
qed

theorem getThread_posts_witness:
  "(\<exists>t ps bi. getThread (ascii ''1'') replied_db = Ok (ThreadPage t ps bi) \<and>
      map p_id ps = [1, 2] \<and>
      sorted_wrt (\<lambda>x y. p_created_at x \<le> p_created_at y) ps) \<and>
   (\<exists>t ps bi. getThread (ascii ''1'') crowded_db = Ok (ThreadPage t ps bi) \<and>
      length (filter (\<lambda>p. p_thread_id p = t_id t) (posts crowded_db)) = 101 \<and>
      length ps = 100 \<and> map p_id ps = map int [1..<101])"
proof -
  have "thread_by_id (SqlText (ascii ''1'')) replied_db \<noteq> None"
    by (simp add: eval_defs secret_reply_req_def replied_db_def)
  then obtain t where t: "thread_by_id (SqlText (ascii ''1'')) replied_db = Some t"
    by blast
  have ids: "(case getThread (ascii ''1'') replied_db of
                Ok (ThreadPage t ps bi) \<Rightarrow> map p_id ps | _ \<Rightarrow> []) = [1, 2]"
    by (simp add: eval_defs
          getThread_def thread_posts_def board_by_id_def secret_reply_req_def replied_db_def)
  from getThread_posts [OF t] obtain ps bi where
    page: "getThread (ascii ''1'') replied_db = Ok (ThreadPage t ps bi)" and
    rest: "sorted_wrt (\<lambda>x y. p_created_at x \<le> p_created_at y) ps"
    by blast
  from ids page have "map p_id ps = [1, 2]"
    by simp
  with page rest have
    "getThread (ascii ''1'') replied_db = Ok (ThreadPage t ps bi) \<and>
     map p_id ps = [1, 2] \<and>
     sorted_wrt (\<lambda>x y. p_created_at x \<le> p_created_at y) ps"
    by simp
  then have small: "\<exists>t ps bi. getThread (ascii ''1'') replied_db = Ok (ThreadPage t ps bi) \<and>
      map p_id ps = [1, 2] \<and>
      sorted_wrt (\<lambda>x y. p_created_at x \<le> p_created_at y) ps"
    by (intro exI)
  have "map_option t_id (thread_by_id (SqlText (ascii ''1'')) crowded_db) = Some 1"
    by (simp add: eval_defs crowded_db_def upt_rec)
  then obtain c where c: "thread_by_id (SqlText (ascii ''1'')) crowded_db = Some c"
    and cid: "t_id c = 1"
    by auto
  have count: "length (filter (\<lambda>p. p_thread_id p = 1) (posts crowded_db)) = 101"
    by (simp add: crowded_db_def)
  have cids: "(case getThread (ascii ''1'') crowded_db of
                 Ok (ThreadPage t ps bi) \<Rightarrow> map p_id ps | _ \<Rightarrow> []) = map int [1..<101]"
    by (simp add: eval_defs crowded_db_def getThread_def thread_posts_def board_by_id_def upt_rec)
  from getThread_posts [OF c] cid obtain ps' bi' where
    cpage: "getThread (ascii ''1'') crowded_db = Ok (ThreadPage c ps' bi')" and
    clen: "length ps' = min 100 (length (filter (\<lambda>p. p_thread_id p = 1) (posts crowded_db)))"
    by auto
  from clen count have l: "length ps' = 100"
    by simp
  from cids cpage have "map p_id ps' = map int [1..<101]"
    by simp
  with cpage l count cid have
    "getThread (ascii ''1'') crowded_db = Ok (ThreadPage c ps' bi') \<and>
      length (filter (\<lambda>p. p_thread_id p = t_id c) (posts crowded_db)) = 101 \<and>
      length ps' = 100 \<and> map p_id ps' = map int [1..<101]"
    by simp
  then have large: "\<exists>t ps bi. getThread (ascii ''1'') crowded_db = Ok (ThreadPage t ps bi) \<and>
      length (filter (\<lambda>p. p_thread_id p = t_id t) (posts crowded_db)) = 101 \<and>
      length ps = 100 \<and> map p_id ps = map int [1..<101]"
    by (intro exI)
  from small large show ?thesis ..
qed

section \<open>Post deletion\<close>



section \<open>Posts without a password\<close>

lemma createPost_posts:
  "posts (snd (createPost now r d)) = posts d \<or>
   (\<exists>p. posts (snd (createPost now r d)) = posts d @ [p] \<and>
        p_id p = next_id (seq_posts d) (map p_id (posts d)) \<and>
        p_password p = as_text (bind (js_or (pr_password r) JNull)) \<and>
        fst (createPost now r d) = Ok (PostCreated (p_id p)))"
  by (simp add: createPost_def Let_def split: jsval.splits option.splits)

lemma createPost_Ok_posts:
  assumes "createPost now r d = (Ok (PostCreated i), d1)"
  shows "\<exists>p. posts d1 = posts d @ [p] \<and> p_id p = i \<and>
             i = next_id (seq_posts d) (map p_id (posts d)) \<and>
             p_password p = as_text (bind (js_or (pr_password r) JNull))"
  using assms
  by (auto simp: createPost_def Let_def split: if_splits jsval.splits option.splits)

lemma deletePost_posts:
  "posts (snd (deletePost r d)) = posts d \<or>
   (\<exists>i q. as_int (bind (dr_post_id r)) = Some i \<and> q \<in> set (posts d) \<and> p_id q = i \<and>
      p_password q \<noteq> None \<and>
      posts (snd (deletePost r d)) = filter (\<lambda>p. p_id p \<noteq> i) (posts d))"
proof (cases "post_by_id_password (bind (dr_post_id r)) (bind (dr_password r)) d")
  case None
  then show ?thesis by (simp add: deletePost_def)
next
  case (Some q)
  then have q: "q \<in> set (posts d)" and
    m: "sql_eq (Some (p_id q)) (as_int (bind (dr_post_id r))) \<and>
        sql_eq (p_password q) (as_text (bind (dr_password r)))"
    unfolding post_by_id_password_def by (auto dest: find_Some_in_set)
  from m have i: "as_int (bind (dr_post_id r)) = Some (p_id q)"
    by simp
  from m have pw: "p_password q \<noteq> None"
    by (auto simp: sql_eq_def split: option.splits)
  have "posts (snd (deletePost r d)) = filter (\<lambda>p. p_id p \<noteq> p_id q) (posts d)"
    if "truthy (dr_password r)"
  proof -
    have "posts (snd (deletePost r d)) =
            filter (\<lambda>p. \<not> sql_eq (Some (p_id p)) (as_int (bind (dr_post_id r)))) (posts d)"
      using that Some by (simp add: deletePost_def)
    also have "\<dots> = filter (\<lambda>p. p_id p \<noteq> p_id q) (posts d)"
      by (rule filter_cong) (auto simp: i)
    finally show ?thesis .
  qed
  moreover have "\<not> truthy (dr_password r) \<Longrightarrow> posts (snd (deletePost r d)) = posts d"
    by (simp add: deletePost_def)
  ultimately show ?thesis
    using i q pw by blast
qed

lemma step_distinct_posts:
  assumes "distinct (map p_id (posts d))"
  shows "distinct (map p_id (posts (step ev d)))"
proof (cases ev)
  case (Pair now rq)
  show ?thesis
  proof (cases rq)
    case (Startup clock)
    with Pair assms show ?thesis by simp
  next
    case (CreateThread r)
    with Pair assms show ?thesis by simp
  next
    case (CreatePost r)
    from createPost_posts [of now r d] assms next_id_fresh [of "seq_posts d" "map p_id (posts d)"]
    have "distinct (map p_id (posts (snd (createPost now r d))))"
      by auto
    with Pair CreatePost show ?thesis by simp
  next
    case (DeletePost r)
    from deletePost_posts [of r d] assms
    have "distinct (map p_id (posts (snd (deletePost r d))))"
      by (auto simp: distinct_map_filter)
    with Pair DeletePost show ?thesis by simp
  qed
qed

lemma deletePost_keeps_passwordless:
  assumes "distinct (map p_id (posts d))" and "p \<in> set (posts d)" and "p_password p = None"
  shows "p \<in> set (posts (snd (deletePost r d)))"
proof -
  from deletePost_posts [of r d] show ?thesis
  proof
    assume "posts (snd (deletePost r d)) = posts d"
    with assms(2) show ?thesis by simp
  next
    assume "\<exists>i q. as_int (bind (dr_post_id r)) = Some i \<and> q \<in> set (posts d) \<and> p_id q = i \<and>
      p_password q \<noteq> None \<and>
      posts (snd (deletePost r d)) = filter (\<lambda>p. p_id p \<noteq> i) (posts d)"
    then obtain i q where q: "q \<in> set (posts d)" "p_id q = i" "p_password q \<noteq> None"
      and f: "posts (snd (deletePost r d)) = filter (\<lambda>p. p_id p \<noteq> i) (posts d)"
      by blast
    from q(3) assms(3) have "q \<noteq> p"
      by auto
    with assms(1,2) q(1) have "p_id q \<noteq> p_id p"
      by (auto simp: distinct_map dest: inj_onD)
    with f q(2) assms(2) show ?thesis
      by simp
  qed
qed

lemma step_keeps_passwordless:
  assumes "distinct (map p_id (posts d))" and "p \<in> set (posts d)" and "p_password p = None"
  shows "p \<in> set (posts (step ev d))"
proof (cases ev)
  case (Pair now rq)
  show ?thesis
  proof (cases rq)
    case (Startup clock)
    with Pair assms(2) show ?thesis by simp
  next
    case (CreateThread r)
    with Pair assms(2) show ?thesis by simp
  next
    case (CreatePost r)
    from createPost_posts [of now r d] assms(2)
    have "p \<in> set (posts (snd (createPost now r d)))"
      by auto
    with Pair CreatePost show ?thesis by simp
  next
    case (DeletePost r)
    with Pair deletePost_keeps_passwordless [OF assms] show ?thesis by simp
  qed
qed

lemma run_keeps_passwordless:
  assumes "distinct (map p_id (posts d))" and "p \<in> set (posts d)" and "p_password p = None"
  shows "p \<in> set (posts (run evs d)) \<and> distinct (map p_id (posts (run evs d)))"
  using assms
proof (induction evs arbitrary: d)
  case Nil
  then show ?case by (simp add: run_def)
next
  case (Cons ev evs)
  have "p \<in> set (posts (run evs (step ev d))) \<and> distinct (map p_id (posts (run evs (step ev d))))"
    using step_distinct_posts [OF Cons.prems(1)] step_keeps_passwordless [OF Cons.prems] Cons.prems(3)
    by (rule Cons.IH)
  then show ?case by (simp add: run_def)
qed

lemma deletePost_passwordless_fails:
  assumes "distinct (map p_id (posts d))" and "p \<in> set (posts d)" and "p_password p = None"
    and "as_int (bind (dr_post_id r)) = Some (p_id p)"
  shows "fst (deletePost r d) = Err 400 MsgEnterPassword \<or>
         fst (deletePost r d) = Err 400 MsgWrongPasswordOrNoPost"
proof (cases "truthy (dr_password r)")
  case False
  then show ?thesis by (simp add: deletePost_def)
next
  case True
  have only: "q = p" if "q \<in> set (posts d)" and "p_id q = p_id p" for q
    using that assms(1,2) by (auto simp: distinct_map dest: inj_onD)
  from truthy_bind_text [OF True] assms(3)
  have "\<forall>q \<in> set (posts d). as_int (bind (dr_post_id r)) = Some (p_id q) \<longrightarrow>
           p_password q \<noteq> as_text (bind (dr_password r))"
    using assms(4) only by auto
  with True have "deletePost r d = (Err 400 MsgWrongPasswordOrNoPost, d)"
    by (rule deletePost_denied)
  then show ?thesis by simp
qed

text \<open>
  C10. A post created without a password (a missing, null or empty password field) is
  stored with a NULL password and can no longer be deleted: it is still in the posts table
  after any run of requests, and every delete call that names it, whatever password it
  carries, is turned away by the password check or by the id-and-password lookup.
\<close>

theorem passwordless_post_never_deleted:
  assumes "distinct (map p_id (posts d))"
    and "\<not> truthy (pr_password r)"
    and "createPost now r d = (Ok (PostCreated i), d1)"
  shows "\<exists>p. p \<in> set (posts d1) \<and> p_id p = i \<and> p_password p = None \<and>
           (\<forall>evs. p \<in> set (posts (run evs d1))) \<and>
           (\<forall>evs rq. as_int (bind (dr_post_id rq)) = Some i \<longrightarrow>
              fst (deletePost rq (run evs d1)) = Err 400 MsgEnterPassword \<or>
              fst (deletePost rq (run evs d1)) = Err 400 MsgWrongPasswordOrNoPost)"
proof -
  from createPost_Ok_posts [OF assms(3)] obtain p where
    p: "posts d1 = posts d @ [p]" "p_id p = i" "i = next_id (seq_posts d) (map p_id (posts d))"
       "p_password p = as_text (bind (js_or (pr_password r) JNull))"
    by blast
  from p(4) assms(2) have null: "p_password p = None"
    by (simp add: falsy_or_null)
  from p(1) have mem: "p \<in> set (posts d1)"
    by simp
  from p(1,2,3) assms(1) next_id_fresh [of "seq_posts d" "map p_id (posts d)"]
  have dist: "distinct (map p_id (posts d1))"
    by auto
  have stays: "p \<in> set (posts (run evs d1)) \<and> distinct (map p_id (posts (run evs d1)))" for evs
    using dist mem null by (rule run_keeps_passwordless)
  have fails: "fst (deletePost rq (run evs d1)) = Err 400 MsgEnterPassword \<or>
               fst (deletePost rq (run evs d1)) = Err 400 MsgWrongPasswordOrNoPost"
    if "as_int (bind (dr_post_id rq)) = Some i" for evs rq
    using stays [of evs] null that p(2)
    by (intro deletePost_passwordless_fails [of "run evs d1" p rq]) simp_all
  from mem p(2) null stays fails show ?thesis by blast
qed

theorem passwordless_post_never_deleted_witness:
  "\<exists>p. p \<in> set (posts (snd (createPost 2 reply_req first_thread_db))) \<and> p_id p = 1 \<and>
        p_password p = None \<and>
        p \<in> set (posts (run (tl example_run) (snd (createPost 2 reply_req first_thread_db)))) \<and>
        fst (deletePost \<lparr>dr_post_id = JNum 1, dr_password = JStr (ascii ''secret'')\<rparr>
               (snd (createPost 2 reply_req first_thread_db))) = Err 400 MsgWrongPasswordOrNoPost"
proof -
  let ?d1 = "snd (createPost 2 reply_req first_thread_db)"
  let ?rq = "\<lparr>dr_post_id = JNum 1, dr_password = JStr (ascii ''secret'')\<rparr>"
  have 1: "distinct (map p_id (posts first_thread_db))"
    by (simp add: eval_defs)
  have 2: "\<not> truthy (pr_password reply_req)"
    by (simp add: reply_req_def)
  have "fst (createPost 2 reply_req first_thread_db) = Ok (PostCreated 1)"
    by (simp add: eval_defs)
  then have 3: "createPost 2 reply_req first_thread_db = (Ok (PostCreated 1), ?d1)"
    by (cases "createPost 2 reply_req first_thread_db") simp
  from passwordless_post_never_deleted [OF 1 2 3] obtain p where
    p: "p \<in> set (posts ?d1)" "p_id p = 1" "p_password p = None"
       "\<And>evs. p \<in> set (posts (run evs ?d1))"
       "\<And>evs rq. as_int (bind (dr_post_id rq)) = Some 1 \<Longrightarrow>
              fst (deletePost rq (run evs ?d1)) = Err 400 MsgEnterPassword \<or>
              fst (deletePost rq (run evs ?d1)) = Err 400 MsgWrongPasswordOrNoPost"
    by blast
  from p(5) [of ?rq "[]"]
  have "fst (deletePost ?rq ?d1) = Err 400 MsgEnterPassword \<or>
        fst (deletePost ?rq ?d1) = Err 400 MsgWrongPasswordOrNoPost"
    by (simp add: run_def)
  moreover have "fst (deletePost ?rq ?d1) \<noteq> Err 400 MsgEnterPassword"
    by (simp add: deletePost_def ascii_def split: option.splits)
  ultimately have "fst (deletePost ?rq ?d1) = Err 400 MsgWrongPasswordOrNoPost"
    by blast
  with p(1,2,3) p(4) [of "tl example_run"] show ?thesis
    by blast
qed

section \<open>Reply count and bump time\<close>

lemma bump_id [simp]: "t_id (bump now i t) = t_id t"
  by (simp add: bump_def)















end
